theory Spec2Isabelle
  imports Main
begin

section \<open>The calculation agent (runner.go): strings\<close>

text \<open>
  Go strings are byte sequences; they are modelled as \<open>string\<close> (a list of 8-bit
  characters). The functions of package \<open>strings\<close> that the agent calls are written
  out on byte lists.
\<close>

abbreviation LF :: char where "LF \<equiv> CHR 0x0A"
abbreviation CR :: char where "CR \<equiv> CHR 0x0D"
abbreviation TAB :: char where "TAB \<equiv> CHR 0x09"

text \<open>\<open>strings.Trim(s, cutset)\<close>: trims the bytes of the cutset on the left, then on the right.\<close>

definition Trim :: "string \<Rightarrow> string \<Rightarrow> string" where
  "Trim s cutset =
     rev (dropWhile (\<lambda>c. c \<in> set cutset) (rev (dropWhile (\<lambda>c. c \<in> set cutset) s)))"

text \<open>
  \<open>strings.Split(s, sep)\<close> for a one-byte separator: one piece more than there are
  separators, the empty string giving one empty piece.
\<close>

fun Split :: "char \<Rightarrow> string \<Rightarrow> string list" where
  "Split sep [] = [[]]"
| "Split sep (c # cs) =
     (if c = sep then [] # Split sep cs
      else (case Split sep cs of [] \<Rightarrow> [[c]] | w # ws \<Rightarrow> (c # w) # ws))"

text \<open>The cutset of \<open>TrimAndSplit\<close>: space, tab, carriage return, newline.\<close>

definition whitespace :: string where
  "whitespace = [CHR '' '', TAB, CR, LF]"

text \<open>
  \<^verbatim>\<open>
  func TrimAndSplit(str string) []string {
      out := make([]string, 0)
      str = strings.Trim(str, " \t\r\n")
      if len(str) > 0 { out = strings.Split(str, "\n") }
      return out
  }
  \<close>
\<close>

definition TrimAndSplit :: "string \<Rightarrow> string list" where
  "TrimAndSplit str =
     (let str' = Trim str whitespace
      in if length str' > 0 then Split LF str' else [])"

text \<open>\<open>strings.HasPrefix\<close>, \<open>HasSuffix\<close>, \<open>TrimPrefix\<close>, \<open>TrimSuffix\<close>, \<open>Join\<close>.\<close>

definition HasPrefix :: "string \<Rightarrow> string \<Rightarrow> bool" where
  "HasPrefix s pre = (length pre \<le> length s \<and> take (length pre) s = pre)"

definition HasSuffix :: "string \<Rightarrow> string \<Rightarrow> bool" where
  "HasSuffix s suf = (length suf \<le> length s \<and> drop (length s - length suf) s = suf)"

definition TrimPrefix :: "string \<Rightarrow> string \<Rightarrow> string" where
  "TrimPrefix s pre = (if HasPrefix s pre then drop (length pre) s else s)"

definition TrimSuffix :: "string \<Rightarrow> string \<Rightarrow> string" where
  "TrimSuffix s suf = (if HasSuffix s suf then take (length s - length suf) s else s)"

fun Join :: "string list \<Rightarrow> string \<Rightarrow> string" where
  "Join [] sep = []"
| "Join [x] sep = x"
| "Join (x # y # ys) sep = x @ sep @ Join (y # ys) sep"

text \<open>
  \<open>strings.SplitN(s, sep, 2)\<close> for a one-byte separator: the text before the first
  separator and the text after it, or \<open>s\<close> alone when it has no separator.
\<close>

definition SplitN2 :: "string \<Rightarrow> char \<Rightarrow> string list" where
  "SplitN2 s sep =
     (if sep \<in> set s
      then [takeWhile (\<lambda>c. c \<noteq> sep) s, tl (dropWhile (\<lambda>c. c \<noteq> sep) s)]
      else [s])"

text \<open>
  \<open>strings.LastIndex(s, sep)\<close> for a one-byte separator: the index of its last
  occurrence, \<open>-1\<close> when there is none.
\<close>

definition LastIndex :: "string \<Rightarrow> char \<Rightarrow> int" where
  "LastIndex s sep =
     (if sep \<in> set s
      then int (length s) - 1 - int (length (takeWhile (\<lambda>c. c \<noteq> sep) (rev s)))
      else - 1)"

section \<open>Errors\<close>

text \<open>
  Go's \<open>error\<close> values, by where they arise, and the run-time panics of the code
  (a failed type assertion, an index out of range, a nil dereference).
\<close>

datatype error =
    NetworkError string
  | ProtocolError string
  | FormatError string
  | IOError string
  | URLError string
  | Panic string

section \<open>Paths\<close>

text \<open>
  \<open>filepath.Base\<close> on a Unix path: \<open>.\<close> for the empty path; trailing slashes are
  stripped; the last element is returned, \<open>/\<close> when nothing else is left.
\<close>

definition Base :: "string \<Rightarrow> string" where
  "Base path =
     (if path = [] then ''.''
      else let stripped = rev (dropWhile (\<lambda>c. c = CHR ''/'') (rev path));
               element = rev (takeWhile (\<lambda>c. c \<noteq> CHR ''/'') (rev stripped))
           in if element = [] then ''/'' else element)"

section \<open>Base64 (\<open>base64.StdEncoding\<close>)\<close>

definition encodeStd :: string where
  "encodeStd = ''ABCDEFGHIJKLMNOPQRSTUVWXYZabcdefghijklmnopqrstuvwxyz0123456789+/''"

definition enc :: "nat \<Rightarrow> char" where
  "enc i = encodeStd ! (i mod 64)"

fun index_of :: "'a \<Rightarrow> 'a list \<Rightarrow> nat option" where
  "index_of x [] = None"
| "index_of x (y # ys) =
     (if x = y then Some 0 else map_option Suc (index_of x ys))"

definition dec :: "char \<Rightarrow> nat option" where
  "dec c = index_of c encodeStd"

text \<open>
  \<open>EncodeToString\<close>: three bytes give four characters; a rest of one or two bytes is
  padded with \<open>=\<close> to four characters.
\<close>

fun EncodeToString :: "string \<Rightarrow> string" where
  "EncodeToString [] = []"
| "EncodeToString [a] =
     (let v = of_char a * 65536
      in [enc (v div 262144), enc (v div 4096), CHR ''='', CHR ''=''])"
| "EncodeToString [a, b] =
     (let v = of_char a * 65536 + of_char b * 256
      in [enc (v div 262144), enc (v div 4096), enc (v div 64), CHR ''=''])"
| "EncodeToString (a # b # c # src) =
     (let v = of_char a * 65536 + of_char b * 256 + (of_char c :: nat)
      in [enc (v div 262144), enc (v div 4096), enc (v div 64), enc v] @ EncodeToString src)"

text \<open>
  \<open>DecodeString\<close>: carriage returns and newlines are skipped; the rest is read four
  characters at a time; only the last quantum may be padded (\<open>xx==\<close> one byte,
  \<open>xxx=\<close> two bytes); every other input is corrupt. As in Go's non-strict decoder,
  the unused low bits of a padded quantum are not checked.
\<close>

definition corrupt :: error where
  "corrupt = FormatError ''illegal base64 data''"

definition quantum :: "char list \<Rightarrow> nat option" where
  "quantum cs =
     (if list_ex (\<lambda>c. dec c = None) cs then None
      else Some (foldl (\<lambda>v c. v * 64 + the (dec c)) 0 cs))"

fun decodeQuanta :: "string \<Rightarrow> error + string" where
  "decodeQuanta [] = Inr []"
| "decodeQuanta (a # b # c # d # src) =
     (if src = [] \<and> d = CHR ''='' then
        (if c = CHR ''='' then
           (case quantum [a, b] of
              None \<Rightarrow> Inl corrupt
            | Some v \<Rightarrow> Inr [char_of (v div 16)])
         else
           (case quantum [a, b, c] of
              None \<Rightarrow> Inl corrupt
            | Some v \<Rightarrow> Inr [char_of (v div 1024), char_of (v div 4)]))
      else
        (case quantum [a, b, c, d] of
           None \<Rightarrow> Inl corrupt
         | Some v \<Rightarrow>
             (case decodeQuanta src of
                Inl e \<Rightarrow> Inl e
              | Inr out \<Rightarrow> Inr ([char_of (v div 65536), char_of (v div 256), char_of v] @ out))))"
| "decodeQuanta _ = Inl corrupt"

definition DecodeString :: "string \<Rightarrow> error + string" where
  "DecodeString s = decodeQuanta (filter (\<lambda>c. c \<noteq> CR \<and> c \<noteq> LF) s)"

section \<open>Data model\<close>

text \<open>
  A decoded JSON value (\<open>interface{}\<close> after \<open>json.Unmarshal\<close>): \<open>nil\<close>, a bool, a
  number, a string, a slice or a \<open>map[string]interface{}\<close>. Go decodes every number
  to a \<open>float64\<close>; the agent never computes with it, so the number type is left open.
\<close>

datatype 'n json =
    JNull
  | JBool bool
  | JNumber 'n
  | JString string
  | JArray "'n json list"
  | JObject "(string \<times> 'n json) list"

text \<open>Reading a key of a Go map: \<open>nil\<close> when the key is absent.\<close>

definition lookup :: "(string \<times> 'n json) list \<Rightarrow> string \<Rightarrow> 'n json" where
  "lookup m k = (case map_of m k of None \<Rightarrow> JNull | Some v \<Rightarrow> v)"

record Artefact =
  name :: string
  contentType :: string
  uri :: string

record CalculationId =
  DocumentType :: string
  Type :: string
  Id :: string
  Version :: string
  Path :: string

record CalculationPayload =
  payload_Id :: string
  Host :: string
  Token :: string

record 'n CalculationContext =
  context_Id :: CalculationId
  Owner :: string
  Inputs :: "(string \<times> 'n json) list"
  FailedInputs :: "(string \<times> string) list"

text \<open>A directory entry as \<open>ioutil.ReadDir\<close> returns it; instants are integers.\<close>

record FileInfo =
  Name :: string
  IsDir :: bool
  ModTime :: int

text \<open>
  The file system, by the outcome of each call the agent makes on it: \<open>os.Getwd\<close>,
  \<open>ioutil.ReadDir\<close>, \<open>os.ReadFile\<close>, and whether \<open>os.WriteFile\<close> fails on a path.
\<close>

record world =
  Getwd :: "error + string"
  ReadDir :: "string \<Rightarrow> error + FileInfo list"
  ReadFile :: "string \<Rightarrow> error + string"
  WriteError :: "string \<Rightarrow> error option"

definition WriteFile :: "world \<Rightarrow> string \<Rightarrow> string \<Rightarrow> error + world" where
  "WriteFile w path data =
     (case WriteError w path of
        Some e \<Rightarrow> Inl e
      | None \<Rightarrow> Inr (w\<lparr>ReadFile := (ReadFile w)(path := Inr data)\<rparr>))"

text \<open>
  \<open>filepath.Abs\<close> on the base name of a directory entry (not empty, no separator,
  neither \<open>.\<close> nor \<open>..\<close>): the name joined to the working directory, which
  \<open>os.Getwd\<close> returns clean (no trailing slash unless it is the root).
\<close>

definition join_path :: "string \<Rightarrow> string \<Rightarrow> string" where
  "join_path dir nm = (if dir = ''/'' then dir @ nm else dir @ ''/'' @ nm)"

definition Abs :: "world \<Rightarrow> string \<Rightarrow> error + string" where
  "Abs w nm =
     (case Getwd w of
        Inl e \<Rightarrow> Inl e
      | Inr wd \<Rightarrow> Inr (join_path wd nm))"

text \<open>
  \<open>ioutil.TempDir(dir, pattern)\<close>: a new directory in \<open>dir\<close> whose name is the pattern
  followed by a random string (\<open>rnd\<close>). The server gives every job such a directory
  inside the directory the agent was started in, with the pattern \<open>calc\<close>.
\<close>

definition TempDir :: "string \<Rightarrow> string \<Rightarrow> string \<Rightarrow> string" where
  "TempDir dir pattern rnd = join_path dir (pattern @ rnd)"

section \<open>Artefacts and input files\<close>

text \<open>
  \<^verbatim>\<open>
  func ReadArtefact(dirpath string, name string, artefact Artefact) error {
      if !strings.HasPrefix(artefact.uri, "data:") { return errors.New("Not a data URI") }
      b64 := strings.SplitN(artefact.uri, ",", 2)[1]
      raw, err := base64.StdEncoding.DecodeString(b64)
      if err != nil { return errors.WithStack(err) }
      extension := artefact.name[strings.LastIndex(artefact.name, ".")+1:]
      err = os.WriteFile(dirpath+"/"+name+"."+extension, raw, os.ModePerm)
      return errors.WithStack(err)
  }
  \<close>
  Indexing the result of \<open>SplitN\<close> at 1 panics when the URI has no comma.
\<close>

definition extension_of :: "string \<Rightarrow> string" where
  "extension_of nm = drop (nat (LastIndex nm (CHR ''.'') + 1)) nm"

definition ReadArtefact :: "world \<Rightarrow> string \<Rightarrow> string \<Rightarrow> Artefact \<Rightarrow> error + world" where
  "ReadArtefact w dirpath nm artefact =
     (if \<not> HasPrefix (uri artefact) ''data:'' then Inl (FormatError ''Not a data URI'')
      else
        let parts = SplitN2 (uri artefact) (CHR '','')
        in if length parts \<le> 1 then Inl (Panic ''index out of range [1] with length 1'')
           else
             (case DecodeString (parts ! 1) of
                Inl e \<Rightarrow> Inl e
              | Inr raw \<Rightarrow>
                  let extension = extension_of (name artefact)
                  in WriteFile w (dirpath @ ''/'' @ nm @ ''.'' @ extension) raw))"

text \<open>
  \<^verbatim>\<open>
  func HandleAsArtefact(dirpath string, name string, content interface{}) (bool, error) {
      if content != nil {
          toexpand := content.(map[string]interface{})
          if toexpand["name"] != nil && toexpand["uri"] != nil && toexpand["contentType"] != nil {
              err := ReadArtefact(dirpath, name, Artefact{
                  name:        toexpand["name"].(string),
                  contentType: toexpand["contentType"].(string),
                  uri:         toexpand["uri"].(string),
              })
              return true, errors.WithStack(err)
          }
      }
      return false, nil
  }
  \<close>
  The type assertions have no \<open>ok\<close> result: each panics on a value of another type.
\<close>

definition assert_string :: "'n json \<Rightarrow> error + string" where
  "assert_string v =
     (case v of
        JString s \<Rightarrow> Inr s
      | _ \<Rightarrow> Inl (Panic ''interface conversion: interface {} is not string''))"

definition HandleAsArtefact ::
  "world \<Rightarrow> string \<Rightarrow> string \<Rightarrow> 'n json \<Rightarrow> error + (bool \<times> world)" where
  "HandleAsArtefact w dirpath nm content =
     (case content of
        JNull \<Rightarrow> Inr (False, w)
      | JObject toexpand \<Rightarrow>
          if lookup toexpand ''name'' \<noteq> JNull \<and> lookup toexpand ''uri'' \<noteq> JNull
             \<and> lookup toexpand ''contentType'' \<noteq> JNull
          then
            (case assert_string (lookup toexpand ''name'') of
               Inl e \<Rightarrow> Inl e
             | Inr n \<Rightarrow>
                 (case assert_string (lookup toexpand ''contentType'') of
                    Inl e \<Rightarrow> Inl e
                  | Inr ct \<Rightarrow>
                      (case assert_string (lookup toexpand ''uri'') of
                         Inl e \<Rightarrow> Inl e
                       | Inr u \<Rightarrow>
                           (case ReadArtefact w dirpath nm
                                   \<lparr>name = n, contentType = ct, uri = u\<rparr> of
                              Inl e \<Rightarrow> Inl e
                            | Inr w' \<Rightarrow> Inr (True, w')))))
          else Inr (False, w)
      | _ \<Rightarrow>
          Inl (Panic ''interface conversion: interface {} is not map[string]interface {}''))"

text \<open>
  \<^verbatim>\<open>
  func ExpandContextFile(dirpath string, name string, content interface{}) error {
      isArtefact, err := HandleAsArtefact(dirpath, name, content)
      if err != nil { return errors.WithStack(err) }
      if !isArtefact && content != nil {
          raw, err := json.Marshal(content)
          if err != nil { return errors.WithStack(err) }
          err = os.WriteFile(dirpath+"/"+name+".json", raw, os.ModePerm)
          return errors.WithStack(err)
      }
      return nil
  }
  \<close>
  \<open>json.Marshal\<close> is a parameter (\<open>Marshal\<close>) of the model.
\<close>

definition ExpandContextFile ::
  "('n json \<Rightarrow> error + string) \<Rightarrow> world \<Rightarrow> string \<Rightarrow> string \<Rightarrow> 'n json \<Rightarrow> error + world" where
  "ExpandContextFile Marshal w dirpath nm content =
     (case HandleAsArtefact w dirpath nm content of
        Inl e \<Rightarrow> Inl e
      | Inr (isArtefact, w') \<Rightarrow>
          if \<not> isArtefact \<and> content \<noteq> JNull then
            (case Marshal content of
               Inl e \<Rightarrow> Inl e
             | Inr raw \<Rightarrow> WriteFile w' (dirpath @ ''/'' @ nm @ ''.json'') raw)
          else Inr w')"

text \<open>
  \<open>ExpandContext\<close> ranges over the map of inputs (in the order the list gives) and
  stops at the first error.
\<close>

fun ExpandInputs ::
  "('n json \<Rightarrow> error + string) \<Rightarrow> world \<Rightarrow> string \<Rightarrow> (string \<times> 'n json) list \<Rightarrow> error + world" where
  "ExpandInputs Marshal w dirpath [] = Inr w"
| "ExpandInputs Marshal w dirpath ((nm, content) # rest) =
     (case ExpandContextFile Marshal w dirpath nm content of
        Inl e \<Rightarrow> Inl e
      | Inr w' \<Rightarrow> ExpandInputs Marshal w' dirpath rest)"

definition ExpandContext ::
  "('n json \<Rightarrow> error + string) \<Rightarrow> world \<Rightarrow> string \<Rightarrow> 'n CalculationContext \<Rightarrow> error + world" where
  "ExpandContext Marshal w dirpath context = ExpandInputs Marshal w dirpath (Inputs context)"

section \<open>Output files and the response\<close>

abbreviation DQ :: char where "DQ \<equiv> CHR 0x22"

text \<open>
  \<^verbatim>\<open>
  func MakeArtefact(path string) (string, error) {
      data, err := os.ReadFile(path)
      if err != nil { return "", err }
      name := filepath.Base(path)
      contentType := http.DetectContentType(data)
      uri := "data:" + contentType + ";base64," + base64.StdEncoding.EncodeToString(data)
      uribytes, err := json.Marshal(uri)
      if err != nil { return "", err }
      return "{\"name\": \"" + name + "\", \"contentType\": \"" + contentType +
             "\", \"uri\": " + string(uribytes) + "}", nil
  }
  \<close>
  \<open>http.DetectContentType\<close> is a parameter (\<open>Detect\<close>). \<open>artefact_of\<close> holds the three
  values (\<open>name\<close>, \<open>contentType\<close>, \<open>uri\<close>) that \<open>MakeArtefact\<close> computes and writes
  into the JSON text it returns.
\<close>

definition artefact_of :: "(string \<Rightarrow> string) \<Rightarrow> string \<Rightarrow> string \<Rightarrow> Artefact" where
  "artefact_of Detect path data =
     \<lparr>name = Base path,
      contentType = Detect data,
      uri = ''data:'' @ Detect data @ '';base64,'' @ EncodeToString data\<rparr>"

definition MakeArtefact ::
  "('n json \<Rightarrow> error + string) \<Rightarrow> (string \<Rightarrow> string) \<Rightarrow> world \<Rightarrow> string \<Rightarrow> error + string" where
  "MakeArtefact Marshal Detect w path =
     (case ReadFile w path of
        Inl e \<Rightarrow> Inl e
      | Inr data \<Rightarrow>
          let a = artefact_of Detect path data
          in (case Marshal (JString (uri a)) of
                Inl e \<Rightarrow> Inl e
              | Inr uribytes \<Rightarrow>
                  Inr ([CHR ''{'', DQ] @ ''name'' @ [DQ] @ '': '' @ [DQ] @ name a @ [DQ]
                       @ '', '' @ [DQ] @ ''contentType'' @ [DQ] @ '': '' @ [DQ]
                       @ contentType a @ [DQ] @ '', '' @ [DQ] @ ''uri'' @ [DQ] @ '': ''
                       @ uribytes @ ''}'')))"

text \<open>
  \<^verbatim>\<open>
  func HandleOutputFile(file string) (string, error) {
      if strings.HasSuffix(file, ".json") {
          data, err := os.ReadFile(file)
          if err != nil { return "", errors.WithStack(err) }
          return string(data), nil
      } else {
          artefact, err := MakeArtefact(file)
          return artefact, errors.WithStack(err)
      }
  }
  \<close>
\<close>

definition HandleOutputFile ::
  "('n json \<Rightarrow> error + string) \<Rightarrow> (string \<Rightarrow> string) \<Rightarrow> world \<Rightarrow> string \<Rightarrow> error + string" where
  "HandleOutputFile Marshal Detect w file =
     (if HasSuffix file ''.json'' then
        (case ReadFile w file of
           Inl e \<Rightarrow> Inl e
         | Inr data \<Rightarrow> Inr data)
      else MakeArtefact Marshal Detect w file)"

text \<open>
  \<^verbatim>\<open>
  func GetChangedFiles(dirpath string, since time.Time) ([]string, error) {
      changed := make([]string, 0)
      files, err := ioutil.ReadDir(dirpath)
      if err != nil { return changed, errors.WithStack(err) }
      for _, file := range files {
          if !file.IsDir() && file.ModTime().After(since) {
              fileAbsolutePath, err := filepath.Abs(file.Name())
              if err != nil { return changed, errors.WithStack(err) }
              changed = append(changed, fileAbsolutePath)
          }
      }
      return changed, errors.WithStack(err)
  }
  \<close>
\<close>

fun changed_loop :: "world \<Rightarrow> int \<Rightarrow> FileInfo list \<Rightarrow> string list \<Rightarrow> error + string list" where
  "changed_loop w since [] changed = Inr changed"
| "changed_loop w since (file # files) changed =
     (if \<not> IsDir file \<and> ModTime file > since then
        (case Abs w (Name file) of
           Inl e \<Rightarrow> Inl e
         | Inr fileAbsolutePath \<Rightarrow> changed_loop w since files (changed @ [fileAbsolutePath]))
      else changed_loop w since files changed)"

definition GetChangedFiles :: "world \<Rightarrow> string \<Rightarrow> int \<Rightarrow> error + string list" where
  "GetChangedFiles w dirpath since =
     (case ReadDir w dirpath of
        Inl e \<Rightarrow> Inl e
      | Inr files \<Rightarrow> changed_loop w since files [])"

text \<open>
  \<open>StringsToJson\<close>: each line marshalled as a JSON string (\<open>""\<close> if that fails), joined
  with \<open>", "\<close> between brackets.
\<close>

definition StringsToJson :: "('n json \<Rightarrow> error + string) \<Rightarrow> string list \<Rightarrow> string" where
  "StringsToJson Marshal strs =
     ''['' @ Join (map (\<lambda>s. case Marshal (JString s) of
                               Inl e \<Rightarrow> [DQ, DQ]
                             | Inr sjson \<Rightarrow> sjson) strs) '', '' @ '']''"

text \<open>
  \<^verbatim>\<open>
  func PackageResult(dirpath string, since time.Time, stdout string, stderr string) (string, error) {
      response := "{\n"
      response += "\t\"logs\": " + StringsToJson(TrimAndSplit(stdout)) + ",\n"
      response += "\t\"errors\": " + StringsToJson(TrimAndSplit(stderr)) + ",\n"
      response += "\t\"outputs\": {\n"
      files, err := GetChangedFiles(dirpath, since)
      if err != nil { return response, errors.WithStack(err) }
      first := true
      for _, file := range files {
          filedata, err := HandleOutputFile(file)
          if err != nil { return response, errors.WithStack(err) }
          if first { first = false } else { response += ",\n" }
          response += "\t\t\"" + filepath.Base(file) + "\": " + filedata
      }
      response += "\n\t}\n}"
      return response, nil
  }
  \<close>
\<close>

fun package_loop ::
  "('n json \<Rightarrow> error + string) \<Rightarrow> (string \<Rightarrow> string) \<Rightarrow> world \<Rightarrow> string list \<Rightarrow> bool \<Rightarrow> string
     \<Rightarrow> error + string" where
  "package_loop Marshal Detect w [] first response = Inr response"
| "package_loop Marshal Detect w (file # files) first response =
     (case HandleOutputFile Marshal Detect w file of
        Inl e \<Rightarrow> Inl e
      | Inr filedata \<Rightarrow>
          package_loop Marshal Detect w files False
            ((if first then response else response @ [CHR '','', LF])
             @ [TAB, TAB, DQ] @ Base file @ [DQ] @ '': '' @ filedata))"

text \<open>The text the loop adds for one file: the key (the base name) and the file's data.\<close>

definition output_entry :: "string \<Rightarrow> string \<Rightarrow> string" where
  "output_entry file filedata = [TAB, TAB, DQ] @ Base file @ [DQ] @ '': '' @ filedata"

definition response_head :: "('n json \<Rightarrow> error + string) \<Rightarrow> string \<Rightarrow> string \<Rightarrow> string" where
  "response_head Marshal stdout stderr =
     [CHR ''{'', LF]
     @ [TAB, DQ] @ ''logs'' @ [DQ] @ '': '' @ StringsToJson Marshal (TrimAndSplit stdout) @ [CHR '','', LF]
     @ [TAB, DQ] @ ''errors'' @ [DQ] @ '': '' @ StringsToJson Marshal (TrimAndSplit stderr) @ [CHR '','', LF]
     @ [TAB, DQ] @ ''outputs'' @ [DQ] @ '': {'' @ [LF]"

definition PackageResult ::
  "('n json \<Rightarrow> error + string) \<Rightarrow> (string \<Rightarrow> string) \<Rightarrow> world \<Rightarrow> string \<Rightarrow> int \<Rightarrow> string \<Rightarrow> string
     \<Rightarrow> error + string" where
  "PackageResult Marshal Detect w dirpath since stdout stderr =
     (case GetChangedFiles w dirpath since of
        Inl e \<Rightarrow> Inl e
      | Inr files \<Rightarrow>
          (case package_loop Marshal Detect w files True (response_head Marshal stdout stderr) of
             Inl e \<Rightarrow> Inl e
           | Inr response \<Rightarrow> Inr (response @ [LF, TAB, CHR ''}'', LF, CHR ''}''])))"

section \<open>The coordinator\<close>

record Request =
  Method :: string
  URL :: string
  Header :: "(string \<times> string) list"
  Body :: string

record Response =
  StatusCode :: int
  Status :: string
  resp_Body :: string

text \<open>
  What \<open>http.DefaultClient.Do\<close> returns: a response and no error; no response (a nil
  pointer) and an error when the transport fails; or the last response together with
  an error when the redirect policy stops the request.
\<close>

datatype DoResult =
    Returned Response
  | TransportFailed string
  | RedirectStopped Response string

text \<open>
  The environment of a job: the library calls whose result the agent only passes on
  (\<open>json.Marshal\<close>, \<open>json.Unmarshal\<close> into a context, \<open>http.DetectContentType\<close>),
  the coordinator (\<open>http.NewRequest\<close> fails on a malformed URL; \<open>Do\<close>), the clock, the
  platform, and the command: what \<open>cmd.Run\<close> leaves behind when started with the given
  arguments in the given directory under the given deadline (in seconds).
\<close>

record Exit =
  Stdout :: string
  Stderr :: string
  RunError :: "string option"
  DeadlineExceeded :: bool
  After :: world

record 'n system =
  json_Marshal :: "'n json \<Rightarrow> error + string"
  json_Unmarshal :: "string \<Rightarrow> error + 'n CalculationContext"
  http_DetectContentType :: "string \<Rightarrow> string"
  http_NewRequestError :: "string \<Rightarrow> string option"
  http_Do :: "Request \<Rightarrow> DoResult"
  time_Now :: int
  runtime_GOOS :: string
  cmd_Run :: "string list \<Rightarrow> string \<Rightarrow> int \<Rightarrow> world \<Rightarrow> Exit"

text \<open>
  \<^verbatim>\<open>
  func GetContext(host string, token string, calculation string) (CalculationContext, error) {
      var dat CalculationContext
      req, err := http.NewRequest("GET", host+"/api/calculations/remote/"+calculation, nil)
      if err != nil { return dat, errors.WithStack(err) }
      req.Header.Set("Authorization", "Bearer "+token)
      req.Header.Set("Accept", "application/json")
      resp, err := http.DefaultClient.Do(req)
      if err != nil { return dat, errors.WithStack(err) }
      if resp.StatusCode != 200 { return dat, errors.New(resp.Status) }
      err = json.Unmarshal(StreamToBytes(resp.Body), &dat)
      return dat, errors.WithStack(err)
  }
  \<close>
\<close>

definition GetContext ::
  "'n system \<Rightarrow> string \<Rightarrow> string \<Rightarrow> string \<Rightarrow> error + 'n CalculationContext" where
  "GetContext sys host token calculation =
     (let url = host @ ''/api/calculations/remote/'' @ calculation
      in case http_NewRequestError sys url of
           Some e \<Rightarrow> Inl (URLError e)
         | None \<Rightarrow>
             (case http_Do sys \<lparr>Method = ''GET'', URL = url,
                       Header = [(''Authorization'', ''Bearer '' @ token),
                                 (''Accept'', ''application/json'')],
                       Body = []\<rparr> of
                TransportFailed e \<Rightarrow> Inl (NetworkError e)
              | RedirectStopped resp e \<Rightarrow> Inl (NetworkError e)
              | Returned resp \<Rightarrow>
                  if StatusCode resp \<noteq> 200 then Inl (ProtocolError (Status resp))
                  else json_Unmarshal sys (resp_Body resp)))"

text \<open>
  \<^verbatim>\<open>
  func SendResult(host string, token string, calculation string, response string) error {
      req, err := http.NewRequest("POST", host+"/api/calculations/remote/"+calculation,
          strings.NewReader(response))
      if err != nil { return errors.WithStack(err) }
      req.Header.Set("Authorization", "Bearer "+token)
      req.Header.Set("Content-Type", "application/json")
      resp, err := http.DefaultClient.Do(req)
      if resp.StatusCode != 200 { return errors.New(resp.Status) }
      return errors.WithStack(err)
  }
  \<close>
  The status is read before the error is looked at: with no response, \<open>resp\<close> is nil
  and reading \<open>resp.StatusCode\<close> panics.
\<close>

definition SendResult :: "'n system \<Rightarrow> string \<Rightarrow> string \<Rightarrow> string \<Rightarrow> string \<Rightarrow> error + unit" where
  "SendResult sys host token calculation response =
     (let url = host @ ''/api/calculations/remote/'' @ calculation
      in case http_NewRequestError sys url of
           Some e \<Rightarrow> Inl (URLError e)
         | None \<Rightarrow>
             (case http_Do sys \<lparr>Method = ''POST'', URL = url,
                       Header = [(''Authorization'', ''Bearer '' @ token),
                                 (''Content-Type'', ''application/json'')],
                       Body = response\<rparr> of
                TransportFailed e \<Rightarrow>
                  Inl (Panic ''invalid memory address or nil pointer dereference'')
              | RedirectStopped resp e \<Rightarrow>
                  if StatusCode resp \<noteq> 200 then Inl (ProtocolError (Status resp))
                  else Inl (NetworkError e)
              | Returned resp \<Rightarrow>
                  if StatusCode resp \<noteq> 200 then Inl (ProtocolError (Status resp))
                  else Inr ()))"

section \<open>One job\<close>

text \<open>
  The text that reaches the packager as stderr: what the command wrote, then the error
  of \<open>cmd.Run\<close> if it returned one, then \<open>Command timed out\<close> if the deadline of the
  context has passed. Both are written with \<open>WriteString\<close>, with no separator.
\<close>

definition errStr_of :: "Exit \<Rightarrow> string" where
  "errStr_of ex =
     Stderr ex
     @ (case RunError ex of None \<Rightarrow> [] | Some e \<Rightarrow> e)
     @ (if DeadlineExceeded ex then ''Command timed out'' else [])"

definition command_args :: "'n system \<Rightarrow> string \<Rightarrow> string list" where
  "command_args sys command =
     (if runtime_GOOS sys = ''windows''
      then [''cmd'', ''/c'', TrimSuffix (TrimPrefix command [DQ]) [DQ]]
      else [''bash'', ''-c'', TrimSuffix (TrimPrefix command [DQ]) [DQ]])"

text \<open>
  \<open>RunCalculation\<close>: fetch the context, write the inputs, read the clock, run the
  command under its deadline, package what changed, upload it. The first error ends
  the job.
\<close>

definition RunCalculation ::
  "'n system \<Rightarrow> world \<Rightarrow> string \<Rightarrow> string \<Rightarrow> string \<Rightarrow> string \<Rightarrow> string \<Rightarrow> int \<Rightarrow> error + unit" where
  "RunCalculation sys w command host token calculation dirpath timeout =
     (let host' = TrimSuffix host ''/''
      in case GetContext sys host' token calculation of
           Inl e \<Rightarrow> Inl e
         | Inr calcContext \<Rightarrow>
             (case ExpandContext (json_Marshal sys) w dirpath calcContext of
                Inl e \<Rightarrow> Inl e
              | Inr w' \<Rightarrow>
                  let t = time_Now sys;
                      ex = cmd_Run sys (command_args sys command) dirpath timeout w';
                      outStr = Stdout ex;
                      errStr = errStr_of ex
                  in (case PackageResult (json_Marshal sys) (http_DetectContentType sys)
                             (After ex) dirpath t outStr errStr of
                        Inl e \<Rightarrow> Inl e
                      | Inr response \<Rightarrow> SendResult sys host' token calculation response)))"

section \<open>Example states\<close>

text \<open>
  A working directory holding an input written before the command ran (\<open>a.json\<close>), an
  output written by it (\<open>b.json\<close>) and a subdirectory: once as the directory the agent
  was started in (CLI mode), once as the temporary directory of a job of the server.
\<close>

definition demo_entries :: "FileInfo list" where
  "demo_entries =
     [\<lparr>Name = ''a.json'', IsDir = False, ModTime = 5\<rparr>,
      \<lparr>Name = ''b.json'', IsDir = False, ModTime = 9\<rparr>,
      \<lparr>Name = ''sub'', IsDir = True, ModTime = 9\<rparr>]"

definition demo_cli :: world where
  "demo_cli =
     \<lparr>Getwd = Inr ''/work'',
      ReadDir = (\<lambda>d. if d = ''/work'' then Inr demo_entries else Inl (IOError ''no such directory'')),
      ReadFile = (\<lambda>p. if p = ''/work/a.json'' then Inr ''5''
                       else if p = ''/work/b.json'' then Inr ''{''
                       else Inl (IOError ''no such file'')),
      WriteError = (\<lambda>p. None)\<rparr>"

definition demo_service :: world where
  "demo_service =
     \<lparr>Getwd = Inr ''/work'',
      ReadDir = (\<lambda>d. if d = ''/work/calc42'' then Inr demo_entries
                      else Inl (IOError ''no such directory'')),
      ReadFile = (\<lambda>p. if p = ''/work/calc42/a.json'' then Inr ''5''
                       else if p = ''/work/calc42/b.json'' then Inr ''6''
                       else Inl (IOError ''no such file'')),
      WriteError = (\<lambda>p. None)\<rparr>"

text \<open>
  A serializer that handles strings only (without escaping) and a content sniffer that
  always answers plain text, for the examples.
\<close>

definition demo_Marshal :: "unit json \<Rightarrow> error + string" where
  "demo_Marshal v =
     (case v of
        JString s \<Rightarrow> Inr ([DQ] @ s @ [DQ])
      | _ \<Rightarrow> Inl (FormatError ''unsupported value''))"

definition demo_Detect :: "string \<Rightarrow> string" where
  "demo_Detect data = ''text/plain; charset=utf-8''"

section \<open>Splitting captured output into lines\<close>

lemma Split_not_Nil: "Split sep s \<noteq> []"
  by (induction s) (auto split: list.splits)

lemma Split_no_sep: "l \<in> set (Split sep s) \<Longrightarrow> sep \<notin> set l"
proof (induction s arbitrary: l)
  case Nil
  then show ?case by simp
next
  case (Cons c cs)
  show ?case
  proof (cases "c = sep")
    case True
    with Cons show ?thesis by auto
  next
    case False
    obtain w ws where sp: "Split sep cs = w # ws"
      using Split_not_Nil [of sep cs] by (cases "Split sep cs") auto
    with Cons.prems False have "l = c # w \<or> l \<in> set ws" by simp
    moreover have "sep \<notin> set w" using Cons.IH [of w] sp by simp
    moreover have "l \<in> set ws \<Longrightarrow> sep \<notin> set l" using Cons.IH [of l] sp by simp
    ultimately show ?thesis using False by auto
  qed
qed

lemma hd_Split_Nil: "hd (Split sep s) = [] \<longleftrightarrow> s = [] \<or> hd s = sep"
proof (cases s)
  case Nil
  then show ?thesis by simp
next
  case (Cons c cs)
  obtain w ws where "Split sep cs = w # ws"
    using Split_not_Nil [of sep cs] by (cases "Split sep cs") auto
  with Cons show ?thesis by simp
qed

lemma Split_eq_single_Nil: "Split sep s = [[]] \<longleftrightarrow> s = []"
proof (cases s)
  case Nil
  then show ?thesis by simp
next
  case (Cons c cs)
  obtain w ws where "Split sep cs = w # ws"
    using Split_not_Nil [of sep cs] by (cases "Split sep cs") auto
  with Cons show ?thesis by simp
qed

lemma last_Split_Nil: "last (Split sep s) = [] \<longleftrightarrow> s = [] \<or> last s = sep"
proof (induction s)
  case Nil
  then show ?case by simp
next
  case (Cons c cs)
  obtain w ws where sp: "Split sep cs = w # ws"
    using Split_not_Nil [of sep cs] by (cases "Split sep cs") auto
  show ?case
  proof (cases "cs = []")
    case True
    then show ?thesis by simp
  next
    case False
    have ih: "last (w # ws) = [] \<longleftrightarrow> last cs = sep"
      using Cons.IH False sp by simp
    show ?thesis
    proof (cases "c = sep")
      case True
      with ih False sp show ?thesis by simp
    next
      case c: False
      show ?thesis
      proof (cases ws)
        case Nil
        have "w \<noteq> []" using Split_eq_single_Nil [of sep cs] sp Nil False by auto
        moreover have "last cs \<noteq> sep" using ih Nil \<open>w \<noteq> []\<close> by simp
        ultimately show ?thesis using False c sp Nil by simp
      next
        case (Cons a as)
        with sp c False ih show ?thesis by simp
      qed
    qed
  qed
qed

lemma Nil_in_tl_Split:
  "[] \<in> set (tl (Split sep s)) \<longleftrightarrow>
     (s \<noteq> [] \<and> last s = sep) \<or> (\<exists>u v. s = u @ [sep, sep] @ v)"
proof (induction s)
  case Nil
  then show ?case by simp
next
  case (Cons c cs)
  obtain w ws where sp: "Split sep cs = w # ws"
    using Split_not_Nil [of sep cs] by (cases "Split sep cs") auto
  have hdw: "w = [] \<longleftrightarrow> cs = [] \<or> hd cs = sep"
    using hd_Split_Nil [of sep cs] sp by simp
  have ex: "(\<exists>u v. c # cs = u @ [sep, sep] @ v) \<longleftrightarrow>
      (c = sep \<and> cs \<noteq> [] \<and> hd cs = sep) \<or> (\<exists>u v. cs = u @ [sep, sep] @ v)"
  proof (cases cs)
    case Nil
    then show ?thesis by (auto simp: Cons_eq_append_conv)
  next
    case (Cons d ds)
    then show ?thesis by (auto simp: Cons_eq_append_conv)
  qed
  show ?case
  proof (cases "c = sep")
    case True
    have "[] \<in> set (tl (Split sep (c # cs))) \<longleftrightarrow> w = [] \<or> [] \<in> set ws"
      using True sp by auto
    also have "\<dots> \<longleftrightarrow> (cs = [] \<or> hd cs = sep) \<or>
        ((cs \<noteq> [] \<and> last cs = sep) \<or> (\<exists>u v. cs = u @ [sep, sep] @ v))"
      using hdw Cons.IH sp by simp
    finally show ?thesis using True ex by auto
  next
    case False
    have "[] \<in> set (tl (Split sep (c # cs))) \<longleftrightarrow> [] \<in> set ws"
      using False sp by simp
    also have "\<dots> \<longleftrightarrow> (cs \<noteq> [] \<and> last cs = sep) \<or> (\<exists>u v. cs = u @ [sep, sep] @ v)"
      using Cons.IH sp by simp
    finally show ?thesis using False ex by auto
  qed
qed

lemma Nil_in_Split:
  "[] \<in> set (Split sep s) \<longleftrightarrow>
     s = [] \<or> hd s = sep \<or> last s = sep \<or> (\<exists>u v. s = u @ [sep, sep] @ v)"
proof -
  have "[] \<in> set (Split sep s) \<longleftrightarrow> hd (Split sep s) = [] \<or> [] \<in> set (tl (Split sep s))"
    using Split_not_Nil [of sep s] by (cases "Split sep s") auto
  then show ?thesis
    unfolding hd_Split_Nil Nil_in_tl_Split by blast
qed

lemma Trim_prefix:
  "dropWhile (\<lambda>c. c \<in> set cs) s = Trim s cs @ rev (takeWhile (\<lambda>c. c \<in> set cs) (rev (dropWhile (\<lambda>c. c \<in> set cs) s)))"
  unfolding Trim_def
  by (metis rev_append rev_rev_ident takeWhile_dropWhile_id)

lemma hd_Trim: "Trim s cs \<noteq> [] \<Longrightarrow> hd (Trim s cs) \<notin> set cs"
proof -
  assume ne: "Trim s cs \<noteq> []"
  let ?d = "dropWhile (\<lambda>c. c \<in> set cs) s"
  have "?d \<noteq> []"
  proof
    assume a: "?d = []"
    have "Trim s cs = rev (dropWhile (\<lambda>c. c \<in> set cs) (rev ?d))"
      by (simp add: Trim_def)
    also have "\<dots> = []" unfolding a by simp
    finally show False using ne by simp
  qed
  then have "hd ?d \<notin> set cs" using hd_dropWhile [of "\<lambda>c. c \<in> set cs" s] by simp
  moreover have "hd ?d = hd (Trim s cs)"
    using Trim_prefix [of cs s] ne by (metis hd_append2)
  ultimately show ?thesis by simp
qed

lemma last_Trim: "Trim s cs \<noteq> [] \<Longrightarrow> last (Trim s cs) \<notin> set cs"
proof -
  assume ne: "Trim s cs \<noteq> []"
  let ?r = "dropWhile (\<lambda>c. c \<in> set cs) (rev (dropWhile (\<lambda>c. c \<in> set cs) s))"
  have "?r \<noteq> []" using ne unfolding Trim_def by simp
  then have "hd ?r \<notin> set cs"
    using hd_dropWhile [of "\<lambda>c. c \<in> set cs" "rev (dropWhile (\<lambda>c. c \<in> set cs) s)"] by simp
  moreover have "last (Trim s cs) = hd ?r"
    unfolding Trim_def using \<open>?r \<noteq> []\<close> by (simp add: last_rev)
  ultimately show ?thesis by simp
qed

lemma concat_Split: "s = concat (map (\<lambda>l. l @ [sep]) (butlast (Split sep s))) @ last (Split sep s)"
proof (induction s)
  case Nil then show ?case by simp
next
  case (Cons c cs)
  obtain w ws where sp: "Split sep cs = w # ws"
    using Split_not_Nil [of sep cs] by (cases "Split sep cs") auto
  show ?case using Cons sp by (cases ws) auto
qed


text \<open>
  Claim C9, as the code has it. \<open>TrimAndSplit\<close> returns the empty sequence exactly
  when the text trimmed of spaces, tabs, carriage returns and newlines is empty.
  Otherwise the result is the trimmed text split on newlines: its first and its last
  element are non-empty, no element contains a newline, and an element is empty exactly
  when the trimmed text has two newlines in a row (a blank line inside the text is kept
  as an empty element).
\<close>

theorem TrimAndSplit_lines:
  "(TrimAndSplit s = [] \<longleftrightarrow> Trim s whitespace = []) \<and>
   (Trim s whitespace \<noteq> [] \<longrightarrow>
      TrimAndSplit s = Split LF (Trim s whitespace) \<and>
      hd (TrimAndSplit s) \<noteq> [] \<and> last (TrimAndSplit s) \<noteq> [] \<and>
      (\<forall>l \<in> set (TrimAndSplit s). LF \<notin> set l) \<and>
      ([] \<in> set (TrimAndSplit s) \<longleftrightarrow> (\<exists>u v. Trim s whitespace = u @ [LF, LF] @ v)))"
proof (cases "Trim s whitespace = []")
  case True
  then show ?thesis by (simp add: TrimAndSplit_def)
next
  case False
  let ?t = "Trim s whitespace"
  have eq: "TrimAndSplit s = Split LF ?t"
    using False by (simp add: TrimAndSplit_def)
  have lf: "LF \<in> set whitespace" by (simp add: whitespace_def)
  have h: "hd ?t \<noteq> LF" using hd_Trim [OF False] lf by metis
  have l: "last ?t \<noteq> LF" using last_Trim [OF False] lf by metis
  have 1: "TrimAndSplit s \<noteq> []" using eq Split_not_Nil by simp
  have 2: "hd (TrimAndSplit s) \<noteq> []" using eq hd_Split_Nil [of LF ?t] False h by simp
  have 3: "last (TrimAndSplit s) \<noteq> []" using eq last_Split_Nil [of LF ?t] False l by simp
  have 4: "\<forall>l \<in> set (TrimAndSplit s). LF \<notin> set l" using eq Split_no_sep by metis
  have 5: "[] \<in> set (TrimAndSplit s) \<longleftrightarrow> (\<exists>u v. ?t = u @ [LF, LF] @ v)"
    using eq Nil_in_Split [of LF ?t] False h l by simp
  from False eq 1 2 3 4 5 show ?thesis by blast
qed

theorem TrimAndSplit_lines_witness:
  "Trim [CHR '' '', CHR ''a'', LF, CHR ''b'', LF, TAB] whitespace \<noteq> [] \<and>
   TrimAndSplit [CHR '' '', CHR ''a'', LF, CHR ''b'', LF, TAB] =
     Split LF (Trim [CHR '' '', CHR ''a'', LF, CHR ''b'', LF, TAB] whitespace) \<and>
   hd (TrimAndSplit [CHR '' '', CHR ''a'', LF, CHR ''b'', LF, TAB]) \<noteq> [] \<and>
   last (TrimAndSplit [CHR '' '', CHR ''a'', LF, CHR ''b'', LF, TAB]) \<noteq> []"
proof -
  have ne: "Trim [CHR '' '', CHR ''a'', LF, CHR ''b'', LF, TAB] whitespace \<noteq> []"
    by (simp add: Trim_def whitespace_def)
  from TrimAndSplit_lines [of "[CHR '' '', CHR ''a'', LF, CHR ''b'', LF, TAB]"] ne
  show ?thesis by blast
qed

text \<open>
  Claim C9 as stated fails: the text \<open>a\<close>, newline, newline, \<open>b\<close> is not empty when
  trimmed, and its split has the empty string as second element.
\<close>

theorem TrimAndSplit_blank_line_counterexample:
  "Trim [CHR ''a'', LF, LF, CHR ''b''] whitespace \<noteq> [] \<and>
   TrimAndSplit [CHR ''a'', LF, LF, CHR ''b''] = [''a'', [], ''b''] \<and>
   [] \<in> set (TrimAndSplit [CHR ''a'', LF, LF, CHR ''b''])"
  by (simp add: TrimAndSplit_def Trim_def whitespace_def)

section \<open>Writing the inputs\<close>

text \<open>
  What \<open>ExpandContextFile\<close> does by the shape of the value: nothing for \<open>nil\<close>; for an
  object that lacks one of \<open>name\<close>, \<open>uri\<close>, \<open>contentType\<close>, the JSON text goes to
  \<open><name>.json\<close>; for any other value that is not an object, the type assertion of
  \<open>HandleAsArtefact\<close> panics before anything is written.
\<close>

lemma ExpandContextFile_null:
  "ExpandContextFile Marshal w dirpath nm JNull = Inr w"
  by (simp add: ExpandContextFile_def HandleAsArtefact_def)

lemma ExpandContextFile_plain_object:
  "lookup m ''name'' = JNull \<or> lookup m ''uri'' = JNull \<or> lookup m ''contentType'' = JNull \<Longrightarrow>
   ExpandContextFile Marshal w dirpath nm (JObject m) =
     (case Marshal (JObject m) of
        Inl e \<Rightarrow> Inl e
      | Inr raw \<Rightarrow> WriteFile w (dirpath @ ''/'' @ nm @ ''.json'') raw)"
  by (auto simp add: ExpandContextFile_def HandleAsArtefact_def)

lemma ExpandContextFile_not_object:
  "content \<noteq> JNull \<Longrightarrow> (\<forall>m. content \<noteq> JObject m) \<Longrightarrow>
   ExpandContextFile Marshal w dirpath nm content =
     Inl (Panic ''interface conversion: interface {} is not map[string]interface {}'')"
  by (cases content) (simp_all add: ExpandContextFile_def HandleAsArtefact_def)

text \<open>
  Claim C1 at the input \<open>a = 5\<close>: the claim has \<open>5\<close> written to \<open>a.json\<close>; the code
  panics in \<open>HandleAsArtefact\<close>, whatever the file system and the serializer are, and
  writes no file.
\<close>

theorem ExpandContextFile_number_panics:
  "ExpandContextFile Marshal w dirpath ''a'' (JNumber (5::int)) =
     Inl (Panic ''interface conversion: interface {} is not map[string]interface {}'')"
  by (simp add: ExpandContextFile_def HandleAsArtefact_def)

section \<open>Decoding an artefact\<close>

lemma ReadArtefact_not_data:
  "\<not> HasPrefix (uri a) ''data:'' \<Longrightarrow> ReadArtefact w dirpath nm a = Inl (FormatError ''Not a data URI'')"
  by (simp add: ReadArtefact_def)

lemma ReadArtefact_comma:
  "HasPrefix (uri a) ''data:'' \<Longrightarrow> CHR '','' \<in> set (uri a) \<Longrightarrow>
   ReadArtefact w dirpath nm a =
     (case DecodeString (tl (dropWhile (\<lambda>c. c \<noteq> CHR '','') (uri a))) of
        Inl e \<Rightarrow> Inl e
      | Inr raw \<Rightarrow> WriteFile w (dirpath @ ''/'' @ nm @ ''.'' @ extension_of (name a)) raw)"
  by (simp add: ReadArtefact_def SplitN2_def Let_def split: sum.splits)

lemma ReadArtefact_no_comma:
  "HasPrefix (uri a) ''data:'' \<Longrightarrow> CHR '','' \<notin> set (uri a) \<Longrightarrow>
   ReadArtefact w dirpath nm a = Inl (Panic ''index out of range [1] with length 1'')"
  by (simp add: ReadArtefact_def SplitN2_def Let_def split: sum.splits)

text \<open>
  Claim C4 at the URI \<open>data:image/png;base64\<close>, which starts with \<open>data:\<close> and has no
  comma: the claim has \<open>ReadArtefact\<close> decode the text after the first comma or fail
  with a format error; the code panics on the index into the result of \<open>SplitN\<close>.
\<close>

theorem ReadArtefact_no_comma_panics:
  "ReadArtefact w dirpath nm
     \<lparr>name = ''x.png'', contentType = ''image/png'', uri = ''data:image/png;base64''\<rparr> =
     Inl (Panic ''index out of range [1] with length 1'')"
  by (simp add: ReadArtefact_def HasPrefix_def SplitN2_def)

section \<open>Uploading the response\<close>

lemma SendResult_not_200:
  "http_NewRequestError sys (host @ ''/api/calculations/remote/'' @ calculation) = None \<Longrightarrow>
   http_Do sys \<lparr>Method = ''POST'', URL = host @ ''/api/calculations/remote/'' @ calculation,
                Header = [(''Authorization'', ''Bearer '' @ token),
                          (''Content-Type'', ''application/json'')],
                Body = response\<rparr> = Returned resp \<Longrightarrow>
   StatusCode resp \<noteq> 200 \<Longrightarrow>
   SendResult sys host token calculation response = Inl (ProtocolError (Status resp))"
  by (simp add: SendResult_def)

lemma GetContext_transport_failure:
  "GetContext (sys\<lparr>http_NewRequestError := \<lambda>url. None, http_Do := \<lambda>req. TransportFailed e\<rparr>)
       host token calculation = Inl (NetworkError e)"
  by (simp add: GetContext_def)

text \<open>
  Claim C6 when the transport fails (\<open>Do\<close> returns no response and an error): the
  claim has \<open>SendResult\<close> return that error; the code reads \<open>resp.StatusCode\<close> of the
  nil response first and panics. \<open>GetContext\<close> checks the error before the status.
\<close>

theorem SendResult_transport_failure_panics:
  "SendResult (sys\<lparr>http_NewRequestError := \<lambda>url. None, http_Do := \<lambda>req. TransportFailed e\<rparr>)
       host token calculation response =
     Inl (Panic ''invalid memory address or nil pointer dereference'')"
  by (simp add: SendResult_def)

section \<open>Scanning for changed files\<close>

lemma changed_loop_Getwd:
  "Getwd w = Inr wd \<Longrightarrow>
   changed_loop w since files changed =
     Inr (changed @ map (\<lambda>f. join_path wd (Name f))
                        (filter (\<lambda>f. \<not> IsDir f \<and> since < ModTime f) files))"
  by (induction files arbitrary: changed) (simp_all add: Abs_def)

lemma changed_loop_sound:
  "changed_loop w since files acc = Inr changed \<Longrightarrow> p \<in> set changed \<Longrightarrow>
   p \<in> set acc \<or> (\<exists>f \<in> set files. Abs w (Name f) = Inr p \<and> \<not> IsDir f \<and> since < ModTime f)"
proof (induction files arbitrary: acc)
  case Nil
  then show ?case by simp
next
  case (Cons fi files)
  show ?case
  proof (cases "\<not> IsDir fi \<and> since < ModTime fi")
    case True
    then obtain q where q: "Abs w (Name fi) = Inr q"
      and loop: "changed_loop w since files (acc @ [q]) = Inr changed"
      using Cons.prems(1) by (auto split: sum.splits)
    from Cons.IH [OF loop Cons.prems(2)] q True show ?thesis by auto
  next
    case False
    then have "changed_loop w since files acc = Inr changed"
      using Cons.prems(1) by auto
    from Cons.IH [OF this Cons.prems(2)] show ?thesis by auto
  qed
qed

lemma join_path_inject: "join_path d a = join_path d b \<Longrightarrow> a = b"
  by (simp add: join_path_def split: if_splits)

lemma Abs_inject: "Abs w a = Inr p \<Longrightarrow> Abs w b = Inr p \<Longrightarrow> a = b"
  by (auto simp: Abs_def split: sum.splits dest: join_path_inject)

text \<open>
  Claim C7. Every path that \<open>GetChangedFiles\<close> returns is the resolved name of an entry
  of the directory that is not a subdirectory and whose modification time is strictly
  after \<open>since\<close>; and, entries of a directory having distinct names, no subdirectory
  and no entry modified at or before \<open>since\<close> is among the returned paths.
\<close>

theorem GetChangedFiles_only_changed_files:
  assumes "ReadDir w dirpath = Inr files"
    and "GetChangedFiles w dirpath since = Inr changed"
  shows "(\<forall>p \<in> set changed. \<exists>f \<in> set files.
            Abs w (Name f) = Inr p \<and> \<not> IsDir f \<and> since < ModTime f) \<and>
         (distinct (map Name files) \<longrightarrow>
            (\<forall>f \<in> set files. IsDir f \<or> ModTime f \<le> since \<longrightarrow>
               (\<forall>p \<in> set changed. Abs w (Name f) \<noteq> Inr p)))"
proof -
  have loop: "changed_loop w since files [] = Inr changed"
    using assms by (simp add: GetChangedFiles_def)
  have sound: "\<exists>f \<in> set files. Abs w (Name f) = Inr p \<and> \<not> IsDir f \<and> since < ModTime f"
    if "p \<in> set changed" for p
    using changed_loop_sound [OF loop that] by simp
  have excl: "Abs w (Name f) \<noteq> Inr p"
    if d: "distinct (map Name files)" and f: "f \<in> set files"
      and out: "IsDir f \<or> ModTime f \<le> since" and p: "p \<in> set changed" for f p
  proof
    assume a: "Abs w (Name f) = Inr p"
    from sound [OF p] obtain g where g: "g \<in> set files" "Abs w (Name g) = Inr p"
      "\<not> IsDir g" "since < ModTime g" by blast
    from Abs_inject [OF a g(2)] have "Name f = Name g" .
    with d f g(1) have "f = g" by (meson distinct_map inj_onD)
    with out g(3,4) show False by simp
  qed
  from sound excl show ?thesis by blast
qed

theorem GetChangedFiles_only_changed_files_witness:
  "ReadDir demo_cli ''/work'' = Inr demo_entries \<and>
   GetChangedFiles demo_cli ''/work'' 5 = Inr [''/work/b.json''] \<and>
   distinct (map Name demo_entries) \<and>
   Abs demo_cli ''a.json'' \<noteq> Inr ''/work/b.json'' \<and>
   Abs demo_cli ''sub'' \<noteq> Inr ''/work/b.json''"
proof -
  have r: "ReadDir demo_cli ''/work'' = Inr demo_entries"
    by (simp add: demo_cli_def)
  have g: "GetChangedFiles demo_cli ''/work'' 5 = Inr [''/work/b.json'']"
    by (simp add: GetChangedFiles_def demo_cli_def demo_entries_def Abs_def join_path_def)
  have d: "distinct (map Name demo_entries)"
    by (simp add: demo_entries_def)
  have a: "\<lparr>Name = ''a.json'', IsDir = False, ModTime = 5\<rparr> \<in> set demo_entries"
    and s: "\<lparr>Name = ''sub'', IsDir = True, ModTime = 9\<rparr> \<in> set demo_entries"
    by (simp_all add: demo_entries_def)
  from GetChangedFiles_only_changed_files [OF r g] d
  have excl: "\<forall>f \<in> set demo_entries. IsDir f \<or> ModTime f \<le> 5 \<longrightarrow>
      (\<forall>p \<in> set [''/work/b.json'']. Abs demo_cli (Name f) \<noteq> Inr p)"
    by blast
  from excl a have "Abs demo_cli ''a.json'' \<noteq> Inr ''/work/b.json''" by force
  moreover from excl s have "Abs demo_cli ''sub'' \<noteq> Inr ''/work/b.json''" by force
  ultimately show ?thesis using r g d by blast
qed

lemma join_path_length: "length d < length (join_path d n) \<or> n = [] \<and> d = ''/''"
  by (simp add: join_path_def)

lemma takeWhile_until_sep:
  "sep \<notin> set a \<Longrightarrow> takeWhile (\<lambda>c. c \<noteq> sep) (a @ sep # r) = a"
  by (induction a) auto

lemma join_path_split:
  assumes "join_path d a = join_path e b"
    and "CHR ''/'' \<notin> set a" and "CHR ''/'' \<notin> set b" and "d \<noteq> []" and "e \<noteq> []"
  shows "d = e \<and> a = b"
proof -
  define d' where "d' = (if d = ''/'' then [] else d)"
  define e' where "e' = (if e = ''/'' then [] else e)"
  have eq: "d' @ CHR ''/'' # a = e' @ CHR ''/'' # b"
    using assms(1) by (simp add: join_path_def d'_def e'_def split: if_splits)
  have "takeWhile (\<lambda>c. c \<noteq> CHR ''/'') (rev (d' @ CHR ''/'' # a)) = rev a"
    using assms(2) takeWhile_until_sep [of "CHR ''/''" "rev a" "rev d'"] by simp
  moreover have "takeWhile (\<lambda>c. c \<noteq> CHR ''/'') (rev (e' @ CHR ''/'' # b)) = rev b"
    using assms(3) takeWhile_until_sep [of "CHR ''/''" "rev b" "rev e'"] by simp
  ultimately have ab: "a = b" using eq by simp
  with eq have "d' = e'" by simp
  then have "d = e" using assms(4,5) by (simp add: d'_def e'_def split: if_splits)
  with ab show ?thesis by simp
qed

lemma TempDir_not_parent: "TempDir wd pattern rnd \<noteq> wd \<or> (pattern @ rnd = [] \<and> wd = ''/'')"
  by (simp add: TempDir_def join_path_def)

text \<open>
  Claim C8. With the working directory of the process known, \<open>GetChangedFiles\<close> returns
  the names of the qualifying entries of \<open>dirpath\<close> joined to the working directory of
  the process, not to \<open>dirpath\<close>. When \<open>dirpath\<close> is the working directory (CLI mode)
  these are the entries' own paths. Otherwise none of them is a path inside \<open>dirpath\<close>:
  a returned path that names a file of \<open>dirpath\<close> forces \<open>dirpath\<close> to be the working
  directory, and for the temporary directory of a job of the server no returned path
  lies inside it.
\<close>

theorem GetChangedFiles_resolves_against_cwd:
  assumes "Getwd w = Inr wd" and "ReadDir w dirpath = Inr files"
  shows "\<exists>changed. GetChangedFiles w dirpath since = Inr changed \<and>
     changed = map (\<lambda>f. join_path wd (Name f))
                   (filter (\<lambda>f. \<not> IsDir f \<and> since < ModTime f) files) \<and>
     (dirpath = wd \<longrightarrow> (\<forall>p \<in> set changed. \<exists>f \<in> set files. p = join_path dirpath (Name f))) \<and>
     (wd \<noteq> [] \<and> dirpath \<noteq> [] \<and> (\<forall>f \<in> set files. CHR ''/'' \<notin> set (Name f)) \<longrightarrow>
        (\<forall>p \<in> set changed.
           (\<exists>n. CHR ''/'' \<notin> set n \<and> p = join_path dirpath n) \<longrightarrow> dirpath = wd) \<and>
        (\<forall>rnd. dirpath = TempDir wd ''calc'' rnd \<longrightarrow>
           (\<forall>p \<in> set changed. \<forall>n. CHR ''/'' \<notin> set n \<longrightarrow> p \<noteq> join_path dirpath n)))"
proof -
  let ?changed = "map (\<lambda>f. join_path wd (Name f))
                      (filter (\<lambda>f. \<not> IsDir f \<and> since < ModTime f) files)"
  have 1: "GetChangedFiles w dirpath since = Inr ?changed"
    using assms changed_loop_Getwd [of w wd since files "[]"]
    by (simp add: GetChangedFiles_def)
  have 2: "\<exists>f \<in> set files. p = join_path wd (Name f)" if "p \<in> set ?changed" for p
    using that by auto
  have 3: "dirpath = wd"
    if ne: "wd \<noteq> []" "dirpath \<noteq> []" and names: "\<forall>f \<in> set files. CHR ''/'' \<notin> set (Name f)"
      and p: "p \<in> set ?changed" and n: "CHR ''/'' \<notin> set n" "p = join_path dirpath n" for p n
  proof -
    from 2 [OF p] obtain f where f: "f \<in> set files" "p = join_path wd (Name f)" by blast
    with names have "CHR ''/'' \<notin> set (Name f)" by blast
    from join_path_split [OF _ this n(1) ne] f(2) n(2) show ?thesis by simp
  qed
  have 4: "TempDir wd ''calc'' rnd \<noteq> wd" for rnd
    using TempDir_not_parent [of wd "''calc''" rnd] by simp
  show ?thesis
  proof (intro exI [of _ ?changed] conjI impI)
    show "GetChangedFiles w dirpath since = Inr ?changed" by (rule 1)
  next
    show "?changed = ?changed" by (rule refl)
  next
    assume "dirpath = wd"
    then show "\<forall>p \<in> set ?changed. \<exists>f \<in> set files. p = join_path dirpath (Name f)"
      using 2 by simp
  next
    assume h: "wd \<noteq> [] \<and> dirpath \<noteq> [] \<and> (\<forall>f \<in> set files. CHR ''/'' \<notin> set (Name f))"
    show "\<forall>p \<in> set ?changed.
            (\<exists>n. CHR ''/'' \<notin> set n \<and> p = join_path dirpath n) \<longrightarrow> dirpath = wd"
    proof (intro ballI impI)
      fix p assume p: "p \<in> set ?changed"
        and "\<exists>n. CHR ''/'' \<notin> set n \<and> p = join_path dirpath n"
      then obtain n where n: "CHR ''/'' \<notin> set n" "p = join_path dirpath n" by blast
      from h have a: "wd \<noteq> []" and b: "dirpath \<noteq> []"
        and c: "\<forall>f \<in> set files. CHR ''/'' \<notin> set (Name f)" by simp_all
      show "dirpath = wd" by (rule 3 [OF a b c p n])
    qed
  next
    assume h: "wd \<noteq> [] \<and> dirpath \<noteq> [] \<and> (\<forall>f \<in> set files. CHR ''/'' \<notin> set (Name f))"
    show "\<forall>rnd. dirpath = TempDir wd ''calc'' rnd \<longrightarrow>
            (\<forall>p \<in> set ?changed. \<forall>n. CHR ''/'' \<notin> set n \<longrightarrow> p \<noteq> join_path dirpath n)"
    proof (intro allI impI ballI notI)
      fix rnd p n
      assume t: "dirpath = TempDir wd ''calc'' rnd" and p: "p \<in> set ?changed"
        and n: "CHR ''/'' \<notin> set n" "p = join_path dirpath n"
      from h have a: "wd \<noteq> []" and b: "dirpath \<noteq> []"
        and c: "\<forall>f \<in> set files. CHR ''/'' \<notin> set (Name f)" by simp_all
      have "dirpath = wd" by (rule 3 [OF a b c p n])
      with t 4 [of rnd] show False by simp
    qed
  qed
qed

theorem GetChangedFiles_resolves_against_cwd_witness:
  "Getwd demo_service = Inr ''/work'' \<and>
   ReadDir demo_service (TempDir ''/work'' ''calc'' ''42'') = Inr demo_entries \<and>
   GetChangedFiles demo_service (TempDir ''/work'' ''calc'' ''42'') 5 = Inr [''/work/b.json''] \<and>
   ''/work/b.json'' \<noteq> join_path (TempDir ''/work'' ''calc'' ''42'') ''b.json''"
proof -
  have g: "Getwd demo_service = Inr ''/work''"
    by (simp add: demo_service_def)
  have r: "ReadDir demo_service (TempDir ''/work'' ''calc'' ''42'') = Inr demo_entries"
    by (simp add: demo_service_def TempDir_def join_path_def)
  have names: "\<forall>f \<in> set demo_entries. CHR ''/'' \<notin> set (Name f)"
    by (simp add: demo_entries_def)
  have ch: "map (\<lambda>f. join_path ''/work'' (Name f))
                (filter (\<lambda>f. \<not> IsDir f \<and> 5 < ModTime f) demo_entries) = [''/work/b.json'']"
    by (simp add: demo_entries_def join_path_def)
  have ne: "''/work'' \<noteq> []" "TempDir ''/work'' ''calc'' ''42'' \<noteq> []" "CHR ''/'' \<notin> set ''b.json''"
    by (simp_all add: TempDir_def join_path_def)
  from GetChangedFiles_resolves_against_cwd [OF g r, of 5]
  obtain changed where c1: "GetChangedFiles demo_service (TempDir ''/work'' ''calc'' ''42'') 5 = Inr changed"
    and c2: "changed = map (\<lambda>f. join_path ''/work'' (Name f))
                (filter (\<lambda>f. \<not> IsDir f \<and> 5 < ModTime f) demo_entries)"
    and c3: "''/work'' \<noteq> [] \<and> TempDir ''/work'' ''calc'' ''42'' \<noteq> [] \<and>
             (\<forall>f \<in> set demo_entries. CHR ''/'' \<notin> set (Name f)) \<longrightarrow>
        (\<forall>p \<in> set changed.
           (\<exists>n. CHR ''/'' \<notin> set n \<and> p = join_path (TempDir ''/work'' ''calc'' ''42'') n) \<longrightarrow>
              TempDir ''/work'' ''calc'' ''42'' = ''/work'') \<and>
        (\<forall>rnd. TempDir ''/work'' ''calc'' ''42'' = TempDir ''/work'' ''calc'' rnd \<longrightarrow>
           (\<forall>p \<in> set changed. \<forall>n. CHR ''/'' \<notin> set n \<longrightarrow>
              p \<noteq> join_path (TempDir ''/work'' ''calc'' ''42'') n))"
    by blast
  from c2 ch have c: "changed = [''/work/b.json'']" by simp
  from c3 names ne(1,2)
  have "\<forall>rnd. TempDir ''/work'' ''calc'' ''42'' = TempDir ''/work'' ''calc'' rnd \<longrightarrow>
           (\<forall>p \<in> set changed. \<forall>n. CHR ''/'' \<notin> set n \<longrightarrow>
              p \<noteq> join_path (TempDir ''/work'' ''calc'' ''42'') n)"
    by simp
  then have "\<forall>p \<in> set changed. \<forall>n. CHR ''/'' \<notin> set n \<longrightarrow>
              p \<noteq> join_path (TempDir ''/work'' ''calc'' ''42'') n"
    by simp
  with c ne(3) have "''/work/b.json'' \<noteq> join_path (TempDir ''/work'' ''calc'' ''42'') ''b.json''"
    by simp
  with g r c1 c show ?thesis by simp
qed

section \<open>Packaging the changed files\<close>

lemma Join_Cons: "Join (x # xs) sep = x @ (if xs = [] then [] else sep @ Join xs sep)"
  by (cases xs) simp_all

lemma package_loop_success:
  "map (HandleOutputFile M D w) files = map Inr datas \<Longrightarrow>
   package_loop M D w files first response =
     Inr (response @ (if files = [] then []
                      else (if first then [] else [CHR '','', LF])
                           @ Join (map2 output_entry files datas) [CHR '','', LF]))"
proof (induction files arbitrary: datas first response)
  case Nil
  then show ?case by simp
next
  case (Cons f fs)
  from Cons.prems obtain d ds where datas: "datas = d # ds"
    and d: "HandleOutputFile M D w f = Inr d"
    and ds: "map (HandleOutputFile M D w) fs = map Inr ds"
    by (cases datas) auto
  have "length fs = length ds" using ds by (metis length_map)
  then have ne: "fs \<noteq> [] \<longrightarrow> ds \<noteq> []" by auto
  show ?case
    unfolding datas using ne
    by (simp add: d Cons.IH [OF ds] Join_Cons output_entry_def)
qed

lemma package_loop_fails_iff:
  "(\<exists>e. package_loop M D w files first response = Inl e) \<longleftrightarrow>
   (\<exists>f \<in> set files. \<exists>e. HandleOutputFile M D w f = Inl e)"
proof (induction files arbitrary: first response)
  case Nil
  then show ?case by simp
next
  case (Cons f fs)
  show ?case
  proof (cases "HandleOutputFile M D w f")
    case (Inl e)
    then show ?thesis by auto
  next
    case (Inr d)
    then show ?thesis using Cons.IH by simp
  qed
qed

lemma HandleOutputFile_cases:
  "HandleOutputFile M D w f =
     (if HasSuffix f ''.json'' then ReadFile w f else MakeArtefact M D w f)"
  by (simp add: HandleOutputFile_def split: sum.splits)

text \<open>
  Claim C5, as the code has it. For the files the scanner returned: a file whose name
  ends in \<open>.json\<close> is read and its bytes are the output's value as they are (nothing
  parses them); every other file goes through \<open>MakeArtefact\<close>. Packaging fails exactly
  when handling one of the files fails (a failed read, or a failed encoding), and
  otherwise the response holds one entry per file, the key and the data, in order.
\<close>

theorem PackageResult_json_files_verbatim:
  assumes "GetChangedFiles w dirpath since = Inr files"
  shows "(\<forall>f \<in> set files.
            HandleOutputFile M D w f =
              (if HasSuffix f ''.json'' then ReadFile w f else MakeArtefact M D w f)) \<and>
         ((\<exists>e. PackageResult M D w dirpath since out err = Inl e) \<longleftrightarrow>
            (\<exists>f \<in> set files. \<exists>e. HandleOutputFile M D w f = Inl e)) \<and>
         (\<forall>datas. map (HandleOutputFile M D w) files = map Inr datas \<longrightarrow>
            PackageResult M D w dirpath since out err =
              Inr (response_head M out err
                   @ Join (map2 output_entry files datas) [CHR '','', LF]
                   @ [LF, TAB, CHR ''}'', LF, CHR ''}'']))"
proof (intro conjI allI impI ballI)
  fix f
  show "HandleOutputFile M D w f =
          (if HasSuffix f ''.json'' then ReadFile w f else MakeArtefact M D w f)"
    by (rule HandleOutputFile_cases)
next
  have "(\<exists>e. PackageResult M D w dirpath since out err = Inl e) \<longleftrightarrow>
        (\<exists>e. package_loop M D w files True (response_head M out err) = Inl e)"
    using assms by (simp add: PackageResult_def split: sum.splits)
  then show "(\<exists>e. PackageResult M D w dirpath since out err = Inl e) \<longleftrightarrow>
        (\<exists>f \<in> set files. \<exists>e. HandleOutputFile M D w f = Inl e)"
    using package_loop_fails_iff [of M D w files True "response_head M out err"] by simp
next
  fix datas
  assume "map (HandleOutputFile M D w) files = map Inr datas"
  from package_loop_success [OF this, of True "response_head M out err"] assms
  show "PackageResult M D w dirpath since out err =
          Inr (response_head M out err
               @ Join (map2 output_entry files datas) [CHR '','', LF]
               @ [LF, TAB, CHR ''}'', LF, CHR ''}''])"
    by (cases files) (simp_all add: PackageResult_def)
qed


theorem PackageResult_json_files_verbatim_witness:
  "GetChangedFiles demo_cli ''/work'' 5 = Inr [''/work/b.json''] \<and>
   map (HandleOutputFile demo_Marshal demo_Detect demo_cli) [''/work/b.json''] = map Inr [''{''] \<and>
   PackageResult demo_Marshal demo_Detect demo_cli ''/work'' 5 ''out'' ''err'' =
     Inr (response_head demo_Marshal ''out'' ''err''
          @ Join (map2 output_entry [''/work/b.json''] [''{'']) [CHR '','', LF]
          @ [LF, TAB, CHR ''}'', LF, CHR ''}''])"
proof -
  have g: "GetChangedFiles demo_cli ''/work'' 5 = Inr [''/work/b.json'']"
    by (simp add: GetChangedFiles_def demo_cli_def demo_entries_def Abs_def join_path_def)
  have h: "map (HandleOutputFile demo_Marshal demo_Detect demo_cli) [''/work/b.json''] = map Inr [''{'']"
    by (simp add: HandleOutputFile_def HasSuffix_def demo_cli_def)
  from PackageResult_json_files_verbatim [OF g, of demo_Marshal demo_Detect "''out''" "''err''"]
  have "\<forall>datas. map (HandleOutputFile demo_Marshal demo_Detect demo_cli) [''/work/b.json''] = map Inr datas \<longrightarrow>
            PackageResult demo_Marshal demo_Detect demo_cli ''/work'' 5 ''out'' ''err'' =
              Inr (response_head demo_Marshal ''out'' ''err''
                   @ Join (map2 output_entry [''/work/b.json''] datas) [CHR '','', LF]
                   @ [LF, TAB, CHR ''}'', LF, CHR ''}''])"
    by (rule conjunct2 [THEN conjunct2])
  then have "map (HandleOutputFile demo_Marshal demo_Detect demo_cli) [''/work/b.json''] = map Inr [''{''] \<longrightarrow>
            PackageResult demo_Marshal demo_Detect demo_cli ''/work'' 5 ''out'' ''err'' =
              Inr (response_head demo_Marshal ''out'' ''err''
                   @ Join (map2 output_entry [''/work/b.json''] [''{'']) [CHR '','', LF]
                   @ [LF, TAB, CHR ''}'', LF, CHR ''}''])"
    by (rule spec)
  with h have "PackageResult demo_Marshal demo_Detect demo_cli ''/work'' 5 ''out'' ''err'' =
              Inr (response_head demo_Marshal ''out'' ''err''
                   @ Join (map2 output_entry [''/work/b.json''] [''{'']) [CHR '','', LF]
                   @ [LF, TAB, CHR ''}'', LF, CHR ''}''])"
    by (rule rev_mp)
  with g h show ?thesis by (intro conjI)
qed

text \<open>
  Claim C5 as stated fails: \<open>b.json\<close> holds the single byte \<open>{\<close>, which is not a JSON
  value; packaging succeeds and the response carries the byte as the value of
  \<open>b.json\<close>.
\<close>

theorem PackageResult_malformed_json_counterexample:
  "HasSuffix ''/work/b.json'' ''.json'' \<and>
   GetChangedFiles demo_cli ''/work'' 5 = Inr [''/work/b.json''] \<and>
   ReadFile demo_cli ''/work/b.json'' = Inr ''{'' \<and>
   HandleOutputFile demo_Marshal demo_Detect demo_cli ''/work/b.json'' = Inr ''{'' \<and>
   PackageResult demo_Marshal demo_Detect demo_cli ''/work'' 5 [] [] =
     Inr (response_head demo_Marshal [] []
          @ [TAB, TAB, DQ] @ ''b.json'' @ [DQ] @ '': {'' @ [LF, TAB, CHR ''}'', LF, CHR ''}''])"
  by (simp add: PackageResult_def GetChangedFiles_def HandleOutputFile_def HasSuffix_def
      demo_cli_def demo_entries_def Abs_def join_path_def Base_def)


end
